theory Spec2Isabelle
  imports Complex_Main "HOL-Library.Char_ord" "HOL-Library.List_Lexorder" "HOL-Library.Multiset"
begin
section \<open>Data model\<close>

text \<open>
  The program (\<^verbatim>\<open>app.py\<close>) is a pandas pipeline over one table. A table is modelled
  as the list of its rows, a row as a record of its cells. A cell of any column may be
  missing: a missing number (NaN), a missing timestamp (NaT) and a missing text are
  \<open>None\<close>. A number is a rational, the value that the float64 or int64 cell holds.

  Exceptions of the Python run are values of type \<open>error\<close>; a computation that may raise
  returns \<open>error + 'a\<close>, with \<open>Inl\<close> for the exception.
\<close>

datatype error = TypeError | ValueError

text \<open>
  Text that the program only compares and sorts (department, priority level, approval
  level, delay flag) is a \<open>string\<close>, the bytes of its UTF-8 encoding, whose order is
  the order of Python strings. The employee, which the program scans with a regular
  expression, is the list of its code points, as a Python \<^verbatim>\<open>str\<close> is; \<open>codes\<close> writes
  one from ASCII text.
\<close>

type_synonym pystr = "nat list"

definition codes :: "string \<Rightarrow> pystr" where
  "codes s = map of_char s"

text \<open>
  A cell of a duration column as \<^verbatim>\<open>read_csv\<close> delivers it: a number, a missing value,
  or text that is not a number.
\<close>

datatype cell = Num rat | Missing | Text string

text \<open>A timestamp is a calendar date (its day number) and the time within that day.\<close>

type_synonym date = int
type_synonym timestamp = "date \<times> nat"

record raw_record =
  raw_Start_Time :: "string option"
  raw_End_Time :: "string option"
  raw_Department :: "string option"
  raw_Priority_Level :: "string option"
  raw_Assigned_Employee :: "pystr option"
  raw_Approval_Level :: "string option"
  raw_Estimated_Duration :: cell
  raw_Actual_Duration :: cell
  raw_Cost_Per_Task :: "rat option"

record enriched_record =
  Start_Time :: "timestamp option"
  End_Time :: "timestamp option"
  Department :: "string option"
  Priority_Level :: "string option"
  Assigned_Employee :: pystr
  Approval_Level :: string
  Estimated_Duration :: "rat option"
  Actual_Duration :: "rat option"
  Cost_Per_Task :: "rat option"
  Employee_ID_Number :: "pystr option"
  Duration_Difference :: "rat option"
  Delay_Flag :: string

subsection \<open>What the libraries decide\<close>

text \<open>
  The source calls pandas, numpy and \<^verbatim>\<open>re\<close> for operations whose result rests on
  tables and arithmetic that are no part of it. Each of them is a parameter of the
  definitions that use it, written as the source applies it:

  \<^item> \<open>to_datetime\<close>, of type \<open>datetime_parser\<close>: \<^verbatim>\<open>pd.to_datetime\<close> on a whole column.
    It accepts or rejects the column as a whole (the format is inferred from the first
    value) and, when it accepts, gives the timestamp of every row position.
  \<^item> \<open>d\<close>: the characters that the class \<^verbatim>\<open>\d\<close> of \<^verbatim>\<open>re\<close> matches in a \<^verbatim>\<open>str\<close>, the
    decimal digits of Unicode.
  \<^item> \<open>sub\<close>: the subtraction of two numbers as the columns hold them (int64 wraps
    around, float64 rounds).
  \<^item> \<open>gsum\<close> and \<open>gmean\<close>: the sum and the mean of the numbers of a group as pandas
    computes them in int64 or float64.
  \<^item> \<open>rnd\<close>: \<^verbatim>\<open>round(x, 2)\<close> on a percentage \<open>x\<close> computed in float64.
  \<^item> \<open>sorter\<close>: the sort of numpy that \<^verbatim>\<open>sort_values\<close> calls (\<^verbatim>\<open>kind="quicksort"\<close>),
    which puts rows in ascending order of their value.
\<close>

type_synonym datetime_parser = "string option list \<Rightarrow> error + (nat \<Rightarrow> timestamp option)"

section \<open>Data cleaning and transformation (lines 29 to 42)\<close>

text \<open>
  An element-wise operation over a column (\<^verbatim>\<open>Series.apply\<close>, column arithmetic) raises
  at the first element on which it fails and otherwise yields a column of the same
  length.
\<close>

fun elementwise :: "('a \<Rightarrow> error + 'b) \<Rightarrow> 'a list \<Rightarrow> error + 'b list" where
  "elementwise f [] = Inr []"
| "elementwise f (x # xs) =
     (case f x of
        Inl e \<Rightarrow> Inl e
      | Inr y \<Rightarrow> (case elementwise f xs of Inl e \<Rightarrow> Inl e | Inr ys \<Rightarrow> Inr (y # ys)))"

text \<open>\<^verbatim>\<open>fillna({"Approval_Level": "Not Required"})\<close> on one cell.\<close>

definition fillna_Approval_Level :: "string option \<Rightarrow> string" where
  "fillna_Approval_Level c = (case c of None \<Rightarrow> ''Not Required'' | Some s \<Rightarrow> s)"

text \<open>
  \<^verbatim>\<open>re.findall(r'\d+', x)\<close>: the non-overlapping greedy matches from left to right.
  \<open>findall_from d run s\<close> scans \<open>s\<close> with the characters of the match in progress
  held (reversed) in \<open>run\<close>.
\<close>

fun findall_from :: "(nat \<Rightarrow> bool) \<Rightarrow> pystr \<Rightarrow> pystr \<Rightarrow> pystr list" where
  "findall_from d run [] = (if run = [] then [] else [rev run])"
| "findall_from d run (c # cs) =
     (if d c then findall_from d (c # run) cs
      else if run = [] then findall_from d [] cs
      else rev run # findall_from d [] cs)"

definition findall_digits :: "(nat \<Rightarrow> bool) \<Rightarrow> pystr \<Rightarrow> pystr list" where
  "findall_digits d x = findall_from d [] x"

text \<open>
  The lambda of line 37 on a string:
  \<^verbatim>\<open>re.findall(r'\d+', x)[0] if re.findall(r'\d+', x) else None\<close>.
\<close>

definition extract_id :: "(nat \<Rightarrow> bool) \<Rightarrow> pystr \<Rightarrow> pystr option" where
  "extract_id d x = (case findall_digits d x of [] \<Rightarrow> None | m # _ \<Rightarrow> Some m)"

text \<open>
  The lambda applied to one cell of \<^verbatim>\<open>Assigned_Employee\<close>: \<^verbatim>\<open>re.findall\<close> raises
  \<^verbatim>\<open>TypeError\<close> on a cell that holds no string, as a missing value does (a float
  NaN). The result pairs the name with the extracted identifier.
\<close>

definition apply_extract :: "(nat \<Rightarrow> bool) \<Rightarrow> pystr option \<Rightarrow> error + (pystr \<times> pystr option)" where
  "apply_extract d c = (case c of None \<Rightarrow> Inl TypeError | Some x \<Rightarrow> Inr (x, extract_id d x))"

text \<open>
  \<^verbatim>\<open>df["Actual_Duration"] - df["Estimated_Duration"]\<close> on one row: NaN propagates,
  text raises \<^verbatim>\<open>TypeError\<close>. The result carries the two operands as numbers with the
  difference.
\<close>

fun subtract_cells ::
  "(rat \<Rightarrow> rat \<Rightarrow> rat) \<Rightarrow> cell \<times> cell \<Rightarrow> error + (rat option \<times> rat option \<times> rat option)" where
  "subtract_cells sub (Num a, Num e) = Inr (Some a, Some e, Some (sub a e))"
| "subtract_cells sub (Num a, Missing) = Inr (Some a, None, None)"
| "subtract_cells sub (Missing, Num e) = Inr (None, Some e, None)"
| "subtract_cells sub (Missing, Missing) = Inr (None, None, None)"
| "subtract_cells sub (Text s, _) = Inl TypeError"
| "subtract_cells sub (_, Text s) = Inl TypeError"

text \<open>
  \<^verbatim>\<open>np.where(df["Duration_Difference"] > 0, "Delayed", "On-Time")\<close> on one row; the
  comparison \<^verbatim>\<open>NaN > 0\<close> is false.
\<close>

definition greater_zero :: "rat option \<Rightarrow> bool" where
  "greater_zero v = (case v of None \<Rightarrow> False | Some x \<Rightarrow> x > 0)"

definition delay_flag_of :: "rat option \<Rightarrow> string" where
  "delay_flag_of v = (if greater_zero v then ''Delayed'' else ''On-Time'')"

text \<open>One enriched row from the raw row and the new cells of its columns.\<close>

definition enriched_row ::
  "raw_record \<times> timestamp option \<times> timestamp option \<times> (pystr \<times> pystr option) \<times>
     (rat option \<times> rat option \<times> rat option) \<Rightarrow> enriched_record" where
  "enriched_row t =
     (case t of (r, st, et, (emp, idn), (act, est, diff)) \<Rightarrow>
       \<lparr> Start_Time = st, End_Time = et,
         Department = raw_Department r, Priority_Level = raw_Priority_Level r,
         Assigned_Employee = emp,
         Approval_Level = fillna_Approval_Level (raw_Approval_Level r),
         Estimated_Duration = est, Actual_Duration = act,
         Cost_Per_Task = raw_Cost_Per_Task r,
         Employee_ID_Number = idn,
         Duration_Difference = diff,
         Delay_Flag = delay_flag_of diff \<rparr>)"

text \<open>
  The whole block, column by column in the order of the source, so that the exception
  raised is the one of the first statement that fails. The timestamps that
  \<open>to_datetime\<close> gives are laid on the rows by position.
\<close>

definition enrich ::
  "datetime_parser \<Rightarrow> (nat \<Rightarrow> bool) \<Rightarrow> (rat \<Rightarrow> rat \<Rightarrow> rat) \<Rightarrow> raw_record list \<Rightarrow>
     error + enriched_record list" where
  "enrich to_datetime d sub df =
     (case to_datetime (map raw_Start_Time df) of
        Inl e \<Rightarrow> Inl e
      | Inr st \<Rightarrow>
     (case to_datetime (map raw_End_Time df) of
        Inl e \<Rightarrow> Inl e
      | Inr et \<Rightarrow>
     (case elementwise (apply_extract d) (map raw_Assigned_Employee df) of
        Inl e \<Rightarrow> Inl e
      | Inr ids \<Rightarrow>
     (case elementwise (subtract_cells sub)
             (zip (map raw_Actual_Duration df) (map raw_Estimated_Duration df)) of
        Inl e \<Rightarrow> Inl e
      | Inr dds \<Rightarrow>
          Inr (map enriched_row
                 (zip df (zip (map st [0..<length df])
                   (zip (map et [0..<length df]) (zip ids dds)))))))))"

section \<open>Sidebar filters (lines 49 to 71)\<close>

text \<open>\<^verbatim>\<open>Series.unique()\<close>: the distinct values in order of first appearance.\<close>

fun unique :: "'a list \<Rightarrow> 'a list" where
  "unique [] = []"
| "unique (x # xs) = x # unique (filter (\<lambda>y. y \<noteq> x) xs)"

text \<open>
  A selection is the list of the options chosen in the sidebar; the options are the
  distinct values of the column, the missing value among them if the column has one.
  \<^verbatim>\<open>Series.isin(values)\<close> gives a boolean mask, \<^verbatim>\<open>&\<close> combines two masks
  position by position, and \<^verbatim>\<open>df[mask]\<close> keeps the rows whose mask entry is true.
\<close>

definition isin :: "'a list \<Rightarrow> 'a list \<Rightarrow> bool list" where
  "isin col vals = map (\<lambda>v. v \<in> set vals) col"

definition mask_and :: "bool list \<Rightarrow> bool list \<Rightarrow> bool list" where
  "mask_and m1 m2 = map (\<lambda>(a, b). a \<and> b) (zip m1 m2)"

definition select_rows :: "'a list \<Rightarrow> bool list \<Rightarrow> 'a list" where
  "select_rows df msk = map fst (filter snd (zip df msk))"

definition filtered_df ::
  "enriched_record list \<Rightarrow> string option list \<Rightarrow> string option list \<Rightarrow> string list \<Rightarrow>
     enriched_record list" where
  "filtered_df df department_filter priority_filter delay_filter =
     select_rows df
       (mask_and
         (mask_and (isin (map Department df) department_filter)
                   (isin (map Priority_Level df) priority_filter))
         (isin (map Delay_Flag df) delay_filter))"

section \<open>The Delay % indicator (lines 85 and 86)\<close>

text \<open>
  \<^verbatim>\<open>value_counts(normalize=True)\<close>: each distinct value with its share of the
  column. pandas orders the entries by frequency; the order plays no part in the lookup
  \<^verbatim>\<open>.get(key, default)\<close>, the only use made of the result.
\<close>

definition value_counts_normalize :: "'a list \<Rightarrow> ('a \<times> rat) list" where
  "value_counts_normalize xs =
     map (\<lambda>v. (v, of_nat (count_list xs v) / of_nat (length xs))) (unique xs)"

definition series_get :: "('a \<times> 'b) list \<Rightarrow> 'a \<Rightarrow> 'b \<Rightarrow> 'b" where
  "series_get s k dflt = (case map_of s k of None \<Rightarrow> dflt | Some v \<Rightarrow> v)"

text \<open>
  \<^verbatim>\<open>round((... .get('Delayed', 0)) * 100, 2)\<close>, as the f-string of line 86 prints it.
  The share is the quotient of the two counts; \<open>rnd\<close> takes its exact hundredfold to
  the decimal number that the float64 quotient, the float64 product and \<^verbatim>\<open>round\<close>
  arrive at and the metric shows.
\<close>

definition delay_percentage :: "(rat \<Rightarrow> rat) \<Rightarrow> enriched_record list \<Rightarrow> rat" where
  "delay_percentage rnd data =
     rnd (series_get (value_counts_normalize (map Delay_Flag data)) ''Delayed'' 0 * 100)"

section \<open>Grouping\<close>

text \<open>
  \<^verbatim>\<open>groupby(key)\<close> forms one group per distinct key, the groups in ascending order
  of the key; a group holds the rows with that key, in table order. A row whose key is
  missing belongs to no group.
\<close>

definition groupby_keys :: "('r \<Rightarrow> 'k::linorder option) \<Rightarrow> 'r list \<Rightarrow> 'k list" where
  "groupby_keys key data = sort (remdups (List.map_filter key data))"

definition group_rows :: "('r \<Rightarrow> 'k option) \<Rightarrow> 'r list \<Rightarrow> 'k \<Rightarrow> 'r list" where
  "group_rows key data k = filter (\<lambda>r. key r = Some k) data"

text \<open>
  The aggregates of a group skip missing values: the sum of a group without a value is
  0, its mean is missing.
\<close>

definition dropna :: "'a option list \<Rightarrow> 'a list" where
  "dropna xs = List.map_filter (\<lambda>x. x) xs"

definition group_sum :: "(rat list \<Rightarrow> rat) \<Rightarrow> rat option list \<Rightarrow> rat" where
  "group_sum gsum xs = (case dropna xs of [] \<Rightarrow> 0 | v # vs \<Rightarrow> gsum (v # vs))"

definition group_mean :: "(rat list \<Rightarrow> rat) \<Rightarrow> rat option list \<Rightarrow> rat option" where
  "group_mean gmean xs = (case dropna xs of [] \<Rightarrow> None | v # vs \<Rightarrow> Some (gmean (v # vs)))"

section \<open>Delay trend over time (lines 115 and 116)\<close>

text \<open>
  The grouping key \<^verbatim>\<open>filtered_df["Start_Time"].dt.date\<close> with the flag of each row;
  a row whose timestamp is missing belongs to no group.
\<close>

definition dated_flags :: "enriched_record list \<Rightarrow> (date \<times> string) list" where
  "dated_flags data =
     List.map_filter
       (\<lambda>r. case Start_Time r of None \<Rightarrow> None | Some ts \<Rightarrow> Some (fst ts, Delay_Flag r)) data"

text \<open>
  \<^verbatim>\<open>groupby(...)["Delay_Flag"].value_counts()\<close>: one entry for each pair of date and
  flag that occurs, with the number of its rows.
\<close>

definition grouped_value_counts :: "(date \<times> string) list \<Rightarrow> ((date \<times> string) \<times> nat) list" where
  "grouped_value_counts kf = map (\<lambda>p. (p, count_list kf p)) (remdups kf)"

text \<open>
  \<^verbatim>\<open>.unstack()\<close> turns the inner index level into columns: one row per date and one
  column per flag of the index, both sorted, a pair without an entry being missing.
  \<^verbatim>\<open>.fillna(0)\<close> then replaces the missing counts by 0.
\<close>

definition unstack :: "((date \<times> string) \<times> nat) list \<Rightarrow> (date \<times> (string \<times> nat option) list) list" where
  "unstack s =
     (let index = sort (remdups (map (\<lambda>e. fst (fst e)) s));
          columns = sort (remdups (map (\<lambda>e. snd (fst e)) s))
      in map (\<lambda>d. (d, map (\<lambda>f. (f, map_of s (d, f))) columns)) index)"

definition fillna0 :: "(date \<times> (string \<times> nat option) list) list \<Rightarrow> (date \<times> (string \<times> nat) list) list" where
  "fillna0 t =
     map (\<lambda>(d, row). (d, map (\<lambda>(f, c). (f, case c of None \<Rightarrow> 0 | Some n \<Rightarrow> n)) row)) t"

definition trend_df :: "enriched_record list \<Rightarrow> (date \<times> (string \<times> nat) list) list" where
  "trend_df data = fillna0 (unstack (grouped_value_counts (dated_flags data)))"

section \<open>Workload analysis (lines 128 to 133)\<close>

text \<open>Every enriched row has an employee, so no row is left out of these groups.\<close>

definition employee_key :: "enriched_record \<Rightarrow> pystr option" where
  "employee_key r = Some (Assigned_Employee r)"

definition workload_df :: "(rat list \<Rightarrow> rat) \<Rightarrow> enriched_record list \<Rightarrow> (pystr \<times> rat) list" where
  "workload_df gsum data =
     map (\<lambda>e. (e, group_sum gsum (map Actual_Duration (group_rows employee_key data e))))
         (groupby_keys employee_key data)"




section \<open>Recommendation engine (lines 142 to 160)\<close>

text \<open>
  The four messages of \<^verbatim>\<open>generate_insights\<close>, in the order of the source: the text of
  each is fixed but for the department or employee it names.
\<close>

datatype insight =
    HighDelayRate
  | HighestCostDepartment string
  | OverloadedEmployee pystr
  | HighPriorityDelay

text \<open>\<^verbatim>\<open>.mean()\<close> of a boolean column: the share of true entries, NaN on no rows.\<close>

definition bool_mean :: "bool list \<Rightarrow> rat option" where
  "bool_mean bs =
     (if bs = [] then None else Some (of_nat (length (filter id bs)) / of_nat (length bs)))"

definition greater_than :: "rat option \<Rightarrow> rat \<Rightarrow> bool" where
  "greater_than x c = (case x of None \<Rightarrow> False | Some v \<Rightarrow> c < v)"

definition cost_mean_by_department ::
  "(rat list \<Rightarrow> rat) \<Rightarrow> enriched_record list \<Rightarrow> (string \<times> rat option) list" where
  "cost_mean_by_department gmean data =
     map (\<lambda>dep. (dep, group_mean gmean (map Cost_Per_Task (group_rows Department data dep))))
         (groupby_keys Department data)"

text \<open>
  \<^verbatim>\<open>Series.idxmax()\<close> passes over missing values and gives the label of the first
  entry holding the greatest value. On a series without entries it raises
  \<^verbatim>\<open>ValueError\<close>; so it does, from pandas 3 on, on a series whose values are all
  missing (earlier versions gave a missing label with a warning).
\<close>

fun argmax_from :: "'k \<times> rat \<Rightarrow> ('k \<times> rat) list \<Rightarrow> 'k \<times> rat" where
  "argmax_from best [] = best"
| "argmax_from best (p # ps) = argmax_from (if snd best < snd p then p else best) ps"

definition present_entries :: "('k \<times> rat option) list \<Rightarrow> ('k \<times> rat) list" where
  "present_entries s = List.map_filter (\<lambda>(k, v). map_option (Pair k) v) s"

definition idxmax :: "('k \<times> rat option) list \<Rightarrow> error + 'k" where
  "idxmax s =
     (case present_entries s of [] \<Rightarrow> Inl ValueError | p # ps \<Rightarrow> Inr (fst (argmax_from p ps)))"

text \<open>A series of sums has no missing value.\<close>

definition all_present :: "('k \<times> rat) list \<Rightarrow> ('k \<times> rat option) list" where
  "all_present s = map (\<lambda>(k, v). (k, Some v)) s"

definition generate_insights ::
  "(rat list \<Rightarrow> rat) \<Rightarrow> (rat list \<Rightarrow> rat) \<Rightarrow> enriched_record list \<Rightarrow> error + insight list" where
  "generate_insights gmean gsum data =
     (let insights = [];
          delay_rate = bool_mean (map (\<lambda>r. Delay_Flag r = ''Delayed'') data);
          insights = (if greater_than delay_rate (3 / 10) then insights @ [HighDelayRate] else insights)
      in case idxmax (cost_mean_by_department gmean data) of
           Inl e \<Rightarrow> Inl e
         | Inr high_cost_dept \<Rightarrow>
      (let insights = insights @ [HighestCostDepartment high_cost_dept]
       in case idxmax (all_present (workload_df gsum data)) of
            Inl e \<Rightarrow> Inl e
          | Inr overloaded_emp \<Rightarrow>
       (let insights = insights @ [OverloadedEmployee overloaded_emp];
            high_priority_delay =
              filter (\<lambda>r. Priority_Level r = Some ''High'' \<and> Delay_Flag r = ''Delayed'') data;
            insights = (if length high_priority_delay > 0
                        then insights @ [HighPriorityDelay] else insights)
        in Inr insights)))"

section \<open>Notions used in the statements\<close>

subsection \<open>Cleaning block\<close>

text \<open>
  How row \<open>i\<close> of the result of the block relates to row \<open>i\<close> of its input, \<open>st\<close>
  and \<open>et\<close> being the timestamps that \<open>to_datetime\<close> gave for the two columns.
\<close>

definition enriches ::
  "(nat \<Rightarrow> bool) \<Rightarrow> (rat \<Rightarrow> rat \<Rightarrow> rat) \<Rightarrow> (nat \<Rightarrow> timestamp option) \<Rightarrow> (nat \<Rightarrow> timestamp option) \<Rightarrow>
     nat \<Rightarrow> raw_record \<Rightarrow> enriched_record \<Rightarrow> bool" where
  "enriches d sub st et i r e =
     (Start_Time e = st i \<and> End_Time e = et i \<and>
      Department e = raw_Department r \<and>
      Priority_Level e = raw_Priority_Level r \<and>
      raw_Assigned_Employee r = Some (Assigned_Employee e) \<and>
      Approval_Level e = fillna_Approval_Level (raw_Approval_Level r) \<and>
      subtract_cells sub (raw_Actual_Duration r, raw_Estimated_Duration r) =
        Inr (Actual_Duration e, Estimated_Duration e, Duration_Difference e) \<and>
      Cost_Per_Task e = raw_Cost_Per_Task r \<and>
      Employee_ID_Number e = extract_id d (Assigned_Employee e) \<and>
      Delay_Flag e = delay_flag_of (Duration_Difference e))"

text \<open>
  A duration cell is numeric when it is a number or missing. A row is well typed when
  its employee is a string and its two durations are numeric.
\<close>

definition numeric :: "cell \<Rightarrow> bool" where
  "numeric c = (case c of Text s \<Rightarrow> False | _ \<Rightarrow> True)"

definition well_typed :: "raw_record \<Rightarrow> bool" where
  "well_typed r =
     (raw_Assigned_Employee r \<noteq> None \<and>
      numeric (raw_Actual_Duration r) \<and> numeric (raw_Estimated_Duration r))"

subsection \<open>Library operations of the examples\<close>

text \<open>
  The examples below need the library operations at a few arguments only. There,
  whole numbers of moderate size, float64 and int64 arithmetic is exact and agrees with
  the operations on rationals.

  \<open>example_to_datetime\<close> stands for \<^verbatim>\<open>pd.to_datetime\<close> on the columns of the examples:
  it accepts a column whose cells are missing or the date \<^verbatim>\<open>2024-01-01\<close> and rejects
  any other with \<^verbatim>\<open>ValueError\<close>. \<open>example_digit\<close> is \<^verbatim>\<open>\d\<close> on the characters of
  the examples: the ASCII digits and the fullwidth digits U+FF10 to U+FF19 match,
  letters and the underscore do not.
\<close>

definition example_to_datetime :: datetime_parser where
  "example_to_datetime col =
     (if list_all (\<lambda>c. c = None \<or> c = Some ''2024-01-01'') col
      then Inr (\<lambda>i. if i < length col then map_option (\<lambda>s. (19723, 0)) (col ! i) else None)
      else Inl ValueError)"

definition example_digit :: "nat \<Rightarrow> bool" where
  "example_digit c = ((48 \<le> c \<and> c \<le> 57) \<or> (65296 \<le> c \<and> c \<le> 65305))"

definition exact_sub :: "rat \<Rightarrow> rat \<Rightarrow> rat" where
  "exact_sub a e = a - e"

definition exact_sum :: "rat list \<Rightarrow> rat" where
  "exact_sum xs = sum_list xs"

definition exact_mean :: "rat list \<Rightarrow> rat" where
  "exact_mean xs = sum_list xs / of_nat (length xs)"

subsection \<open>Example rows\<close>

text \<open>\<open>asha_raw\<close> is the row of the end-to-end example of the specification.\<close>

definition asha_raw :: raw_record where
  "asha_raw =
     \<lparr> raw_Start_Time = Some ''2024-01-01'', raw_End_Time = None,
       raw_Department = Some ''Ops'', raw_Priority_Level = Some ''High'',
       raw_Assigned_Employee = Some (codes ''Asha_7''), raw_Approval_Level = None,
       raw_Estimated_Duration = Num 10, raw_Actual_Duration = Num 15,
       raw_Cost_Per_Task = Some 100 \<rparr>"

definition asha :: enriched_record where
  "asha =
     \<lparr> Start_Time = Some (19723, 0), End_Time = None,
       Department = Some ''Ops'', Priority_Level = Some ''High'',
       Assigned_Employee = codes ''Asha_7'', Approval_Level = ''Not Required'',
       Estimated_Duration = Some 10, Actual_Duration = Some 15,
       Cost_Per_Task = Some 100, Employee_ID_Number = Some (codes ''7''),
       Duration_Difference = Some 5, Delay_Flag = ''Delayed'' \<rparr>"

definition malformed_raw :: raw_record where
  "malformed_raw = asha_raw \<lparr> raw_Start_Time := Some ''yesterday-ish'' \<rparr>"

definition unassigned_raw :: raw_record where
  "unassigned_raw = asha_raw \<lparr> raw_Assigned_Employee := None \<rparr>"




definition on_time_row :: enriched_record where
  "on_time_row = asha \<lparr> Department := Some ''IT'', Priority_Level := Some ''Low'',
      Assigned_Employee := codes ''Ben_12'', Employee_ID_Number := Some (codes ''12''),
      Actual_Duration := Some 10, Duration_Difference := Some 0, Delay_Flag := ''On-Time'' \<rparr>"

text \<open>
  An employee whose name holds the fullwidth digits 1 and 2 (U+FF11, U+FF12) before the
  ASCII digit 3, and one whose only digits are those two.
\<close>

definition fullwidth_name :: pystr where
  "fullwidth_name = codes ''Li_'' @ [65297, 65298] @ codes ''_3''"

definition fullwidth_only :: pystr where
  "fullwidth_only = codes ''Li_'' @ [65297, 65298]"

subsection \<open>Indicators\<close>

text \<open>The share of delayed rows, as an exact percentage.\<close>

definition delayed_share :: "enriched_record list \<Rightarrow> rat" where
  "delayed_share data =
     of_nat (length (filter (\<lambda>r. Delay_Flag r = ''Delayed'') data)) / of_nat (length data) * 100"

text \<open>
  \<open>two_decimals x y\<close>: the number \<open>y\<close> has two decimal places and lies at most
  0.005 from \<open>x\<close>, so it is \<open>x\<close> rounded to two places. Where \<open>x\<close> is halfway
  between two such numbers either of them qualifies. \<open>rounds_at rnd x\<close> is what the
  statements ask of \<^verbatim>\<open>round(x, 2)\<close> at the percentage of the table in hand: the
  float64 error of the quotient and the product is too small, on a table of fewer than
  \<open>10 ^ 11\<close> rows, to take the result out of this range of the exact percentage
  \<open>x\<close>.
\<close>

definition two_decimals :: "rat \<Rightarrow> rat \<Rightarrow> bool" where
  "two_decimals x y = (of_int \<lfloor>y * 100\<rfloor> = y * 100 \<and> \<bar>y - x\<bar> \<le> 1 / 200)"

definition rounds_at :: "(rat \<Rightarrow> rat) \<Rightarrow> rat \<Rightarrow> bool" where
  "rounds_at rnd x = two_decimals x (rnd x)"

text \<open>
  One such rounding, for the examples: to the nearest hundredth, and to the even one
  from halfway.
\<close>

definition round_half_even :: "rat \<Rightarrow> int" where
  "round_half_even x =
     (let f = \<lfloor>x\<rfloor>; r = x - of_int f
      in if r < 1 / 2 then f else if 1 / 2 < r then f + 1 else if even f then f else f + 1)"

definition nearest_hundredth :: "rat \<Rightarrow> rat" where
  "nearest_hundredth x = of_int (round_half_even (x * 100)) / 100"

subsection \<open>Delay trend\<close>

text \<open>
  \<open>on_date d r\<close>: row \<open>r\<close> starts on the calendar date \<open>d\<close>, whatever the time of
  day. \<open>dated_rows\<close> are the rows that have a start time.
\<close>

definition on_date :: "date \<Rightarrow> enriched_record \<Rightarrow> bool" where
  "on_date d r = (map_option fst (Start_Time r) = Some d)"

definition dated_rows :: "enriched_record list \<Rightarrow> enriched_record list" where
  "dated_rows data = filter (\<lambda>r. Start_Time r \<noteq> None) data"

definition late_next_day :: enriched_record where
  "late_next_day = asha \<lparr> Start_Time := Some (19724, 32400) \<rparr>"

subsection \<open>Recommendations\<close>

text \<open>
  The mean cost of a department and the summed actual duration of an employee, over the
  rows of that department or employee, as \<open>gmean\<close> and \<open>gsum\<close> compute them from
  the values present. A department none of whose rows has a cost has no mean.
\<close>

definition department_mean_cost :: "(rat list \<Rightarrow> rat) \<Rightarrow> enriched_record list \<Rightarrow> string \<Rightarrow> rat option" where
  "department_mean_cost gmean data dep =
     group_mean gmean (map Cost_Per_Task (group_rows Department data dep))"

definition employee_total :: "(rat list \<Rightarrow> rat) \<Rightarrow> enriched_record list \<Rightarrow> pystr \<Rightarrow> rat" where
  "employee_total gsum data e =
     group_sum gsum (map Actual_Duration (group_rows employee_key data e))"

text \<open>
  The two records of the example of the specification, Ops at cost 10 and IT at cost 50;
  the same two with the costs exchanged; and records without a department.
\<close>

definition ops_10 :: enriched_record where
  "ops_10 = asha \<lparr> Cost_Per_Task := Some 10 \<rparr>"

definition it_50 :: enriched_record where
  "it_50 = on_time_row \<lparr> Cost_Per_Task := Some 50 \<rparr>"



definition no_department :: enriched_record where
  "no_department = asha \<lparr> Department := None \<rparr>"

definition no_department_on_time :: enriched_record where
  "no_department_on_time = on_time_row \<lparr> Department := None \<rparr>"

text \<open>The messages that name a department, and those that name an employee.\<close>

definition names_department :: "insight \<Rightarrow> bool" where
  "names_department i = (case i of HighestCostDepartment dep \<Rightarrow> True | _ \<Rightarrow> False)"

definition names_employee :: "insight \<Rightarrow> bool" where
  "names_employee i = (case i of OverloadedEmployee e \<Rightarrow> True | _ \<Rightarrow> False)"

subsection \<open>Workload\<close>







section \<open>Properties of the cleaning block\<close>

subsection \<open>Employee identifier\<close>

lemma findall_from_skip:
  "\<forall>c\<in>set pre. \<not> d c \<Longrightarrow> findall_from d [] (pre @ s) = findall_from d [] s"
  by (induction pre) simp_all

lemma findall_from_run:
  assumes "\<forall>c\<in>set ds. d c" and "post = [] \<or> \<not> d (hd post)"
  shows "findall_from d run (ds @ post) =
           (if run = [] \<and> ds = [] then findall_from d [] post
            else (rev run @ ds) # findall_from d [] post)"
  using assms
proof (induction ds arbitrary: run)
  case Nil
  then show ?case by (cases post) auto
next
  case (Cons c ds)
  then show ?case by simp
qed

lemma extract_id_decomposed:
  assumes "\<forall>c\<in>set pre. \<not> d c" and "m \<noteq> []" and "\<forall>c\<in>set m. d c"
    and "post = [] \<or> \<not> d (hd post)"
  shows "extract_id d (pre @ m @ post) = Some m"
  using assms
  by (simp add: extract_id_def findall_digits_def findall_from_skip findall_from_run)

lemma extract_id_no_digit:
  "\<forall>c\<in>set s. \<not> d c \<Longrightarrow> extract_id d s = None"
  using findall_from_skip [of s d "[]"] by (simp add: extract_id_def findall_digits_def)

lemma first_run_exists:
  assumes "\<exists>c\<in>set s. d c"
  shows "\<exists>pre m post. s = pre @ m @ post \<and> (\<forall>c\<in>set pre. \<not> d c) \<and> m \<noteq> [] \<and>
           (\<forall>c\<in>set m. d c) \<and> (post = [] \<or> \<not> d (hd post))"
proof -
  let ?pre = "takeWhile (\<lambda>c. \<not> d c) s"
  let ?t = "dropWhile (\<lambda>c. \<not> d c) s"
  let ?m = "takeWhile d ?t"
  let ?post = "dropWhile d ?t"
  have t: "?t \<noteq> []" using assms by (simp add: dropWhile_eq_Nil_conv)
  then have "d (hd ?t)" using hd_dropWhile [of "\<lambda>c. \<not> d c" s] by simp
  then have m: "?m \<noteq> []" using t by (cases ?t) auto
  have post: "?post = [] \<or> \<not> d (hd ?post)" using hd_dropWhile [of d ?t] by blast
  have "s = ?pre @ ?m @ ?post" by simp
  moreover have "\<forall>c\<in>set ?pre. \<not> d c" by (auto dest: set_takeWhileD)
  moreover have "\<forall>c\<in>set ?m. d c" by (auto dest: set_takeWhileD)
  ultimately show ?thesis using m post by blast
qed

text \<open>
  Claim C8, amended. For every string in \<^verbatim>\<open>Assigned_Employee\<close>, the extracted identifier
  is the first maximal run, met from the left, of characters that \<^verbatim>\<open>\d\<close> matches. These
  are the decimal digits of Unicode, the ASCII digits among them, whatever \<open>d\<close> that
  class is: the text splits into a prefix without such a character, the run itself (not
  empty, such characters only) and a rest that is empty or starts with another
  character. Whatever follows, later runs included, has no influence. The identifier is
  missing exactly when the text holds no character that \<^verbatim>\<open>\d\<close> matches.
\<close>

theorem extract_id_first_digit_run:
  "(extract_id d s = None \<longleftrightarrow> (\<forall>c\<in>set s. \<not> d c)) \<and>
   (extract_id d s = Some m \<longleftrightarrow>
      (\<exists>pre post. s = pre @ m @ post \<and> (\<forall>c\<in>set pre. \<not> d c) \<and> m \<noteq> [] \<and>
         (\<forall>c\<in>set m. d c) \<and> (post = [] \<or> \<not> d (hd post))))"
proof (intro conjI iffI)
  assume "extract_id d s = None"
  show "\<forall>c\<in>set s. \<not> d c"
  proof (rule ccontr)
    assume "\<not> (\<forall>c\<in>set s. \<not> d c)"
    then have "\<exists>c\<in>set s. d c" by blast
    from first_run_exists [OF this] obtain pre m' post where
      "s = pre @ m' @ post" "\<forall>c\<in>set pre. \<not> d c" "m' \<noteq> []" "\<forall>c\<in>set m'. d c"
      "post = [] \<or> \<not> d (hd post)" by blast
    then have "extract_id d s = Some m'" using extract_id_decomposed by blast
    with \<open>extract_id d s = None\<close> show False by simp
  qed
next
  assume "\<forall>c\<in>set s. \<not> d c"
  then show "extract_id d s = None" by (rule extract_id_no_digit)
next
  assume some: "extract_id d s = Some m"
  have "\<exists>c\<in>set s. d c"
    using some extract_id_no_digit [of s d] by force
  from first_run_exists [OF this] obtain pre m' post where
    dec: "s = pre @ m' @ post" "\<forall>c\<in>set pre. \<not> d c" "m' \<noteq> []" "\<forall>c\<in>set m'. d c"
    "post = [] \<or> \<not> d (hd post)" by blast
  then have "extract_id d s = Some m'" using extract_id_decomposed by blast
  with some have "m' = m" by simp
  with dec show "\<exists>pre post. s = pre @ m @ post \<and> (\<forall>c\<in>set pre. \<not> d c) \<and> m \<noteq> [] \<and>
         (\<forall>c\<in>set m. d c) \<and> (post = [] \<or> \<not> d (hd post))" by blast
next
  assume "\<exists>pre post. s = pre @ m @ post \<and> (\<forall>c\<in>set pre. \<not> d c) \<and> m \<noteq> [] \<and>
         (\<forall>c\<in>set m. d c) \<and> (post = [] \<or> \<not> d (hd post))"
  then show "extract_id d s = Some m" using extract_id_decomposed by blast
qed

theorem extract_id_first_digit_run_witness:
  "extract_id example_digit (codes ''John_42x7'') = Some (codes ''42'') \<and>
   extract_id example_digit (codes ''John'') = None"
proof -
  have "\<exists>pre post. codes ''John_42x7'' = pre @ codes ''42'' @ post \<and>
         (\<forall>c\<in>set pre. \<not> example_digit c) \<and> codes ''42'' \<noteq> [] \<and>
         (\<forall>c\<in>set (codes ''42''). example_digit c) \<and> (post = [] \<or> \<not> example_digit (hd post))"
    by (intro exI [of _ "codes ''John_''"] exI [of _ "codes ''x7''"])
      (simp add: example_digit_def codes_def)
  then have a: "extract_id example_digit (codes ''John_42x7'') = Some (codes ''42'')"
    using extract_id_first_digit_run [of example_digit "codes ''John_42x7''" "codes ''42''"]
    by blast
  have "\<forall>c\<in>set (codes ''John''). \<not> example_digit c"
    by (simp add: example_digit_def codes_def)
  then have "extract_id example_digit (codes ''John'') = None"
    using extract_id_first_digit_run [of example_digit "codes ''John''" "[]"] by blast
  with a show ?thesis by simp
qed

text \<open>
  Claim C8 as stated fails on names that hold decimal digits outside ASCII. In a name
  with the fullwidth digits 1 and 2 before the ASCII digit 3 the identifier is the
  fullwidth run, not 3; in a name whose only digits are fullwidth the identifier is
  that run, not missing.
\<close>

theorem extract_id_fullwidth_digits:
  "extract_id example_digit fullwidth_name = Some [65297, 65298] \<and>
   extract_id example_digit fullwidth_name \<noteq> Some (codes ''3'') \<and>
   extract_id example_digit fullwidth_only = Some [65297, 65298] \<and>
   extract_id example_digit fullwidth_only \<noteq> None"
  by (simp add: extract_id_def findall_digits_def codes_def example_digit_def
      fullwidth_name_def fullwidth_only_def)

subsection \<open>Rows in, rows out\<close>

lemma elementwise_Inr:
  "elementwise f xs = Inr ys \<Longrightarrow> list_all2 (\<lambda>x y. f x = Inr y) xs ys"
  by (induction xs arbitrary: ys) (auto split: sum.splits)

lemma elementwise_total:
  "\<forall>x\<in>set xs. \<exists>y. f x = Inr y \<Longrightarrow> \<exists>ys. elementwise f xs = Inr ys"
  by (induction xs) (auto split: sum.splits)

lemma enrich_Inr:
  assumes "enrich to_datetime d sub df = Inr out"
  shows "\<exists>st et. to_datetime (map raw_Start_Time df) = Inr st \<and>
           to_datetime (map raw_End_Time df) = Inr et \<and>
           length out = length df \<and>
           (\<forall>i<length df. enriches d sub st et i (df ! i) (out ! i))"
proof -
  from assms obtain st et ids dds where
    st: "to_datetime (map raw_Start_Time df) = Inr st" and
    et: "to_datetime (map raw_End_Time df) = Inr et" and
    ids: "elementwise (apply_extract d) (map raw_Assigned_Employee df) = Inr ids" and
    dds: "elementwise (subtract_cells sub)
            (zip (map raw_Actual_Duration df) (map raw_Estimated_Duration df)) = Inr dds" and
    out: "out = map enriched_row
                 (zip df (zip (map st [0..<length df])
                   (zip (map et [0..<length df]) (zip ids dds))))"
    by (auto simp: enrich_def split: sum.splits)
  note a = elementwise_Inr [OF ids] elementwise_Inr [OF dds]
  have len: "length ids = length df" "length dds = length df"
    using a by (auto dest: list_all2_lengthD)
  have l: "length out = length df" using len by (simp add: out)
  have "enriches d sub st et i (df ! i) (out ! i)" if i: "i < length df" for i
  proof -
    have 3: "apply_extract d (raw_Assigned_Employee (df ! i)) = Inr (ids ! i)"
      using list_all2_nthD [OF a(1), of i] i by simp
    have 4: "subtract_cells sub (raw_Actual_Duration (df ! i), raw_Estimated_Duration (df ! i)) =
               Inr (dds ! i)"
      using list_all2_nthD [OF a(2), of i] i by simp
    have o: "out ! i = enriched_row (df ! i, st i, et i, ids ! i, dds ! i)"
      using i len by (simp add: out)
    obtain emp idn where e: "ids ! i = (emp, idn)" by (cases "ids ! i")
    obtain act est diff where dd: "dds ! i = (act, est, diff)" by (cases "dds ! i")
    from 3 e have "raw_Assigned_Employee (df ! i) = Some emp \<and> idn = extract_id d emp"
      by (auto simp: apply_extract_def split: option.splits)
    then show ?thesis
      using 4 by (simp add: enriches_def o e dd enriched_row_def)
  qed
  with st et l show ?thesis by blast
qed

lemma subtract_cells_numeric:
  "numeric a \<Longrightarrow> numeric e \<Longrightarrow> \<exists>t. subtract_cells sub (a, e) = Inr t"
  by (cases a; cases e) (simp_all add: numeric_def)


lemma enrich_returns:
  assumes st: "to_datetime (map raw_Start_Time df) = Inr st"
    and et: "to_datetime (map raw_End_Time df) = Inr et"
    and wt: "\<forall>r\<in>set df. well_typed r"
  shows "\<exists>out. enrich to_datetime d sub df = Inr out"
proof -
  have "\<forall>c\<in>set (map raw_Assigned_Employee df). \<exists>p. apply_extract d c = Inr p"
    using wt by (auto simp: well_typed_def apply_extract_def)
  from elementwise_total [OF this] obtain ids where
    ids: "elementwise (apply_extract d) (map raw_Assigned_Employee df) = Inr ids" by blast
  have "\<forall>p\<in>set (zip (map raw_Actual_Duration df) (map raw_Estimated_Duration df)).
          \<exists>t. subtract_cells sub p = Inr t"
  proof
    fix p assume "p \<in> set (zip (map raw_Actual_Duration df) (map raw_Estimated_Duration df))"
    then obtain r where "r \<in> set df" "p = (raw_Actual_Duration r, raw_Estimated_Duration r)"
      by (auto simp: zip_map_map zip_same)
    then show "\<exists>t. subtract_cells sub p = Inr t"
      using wt subtract_cells_numeric [of "raw_Actual_Duration r" "raw_Estimated_Duration r" sub]
      by (simp add: well_typed_def)
  qed
  from elementwise_total [OF this] obtain dds where
    dds: "elementwise (subtract_cells sub)
            (zip (map raw_Actual_Duration df) (map raw_Estimated_Duration df)) = Inr dds" by blast
  show ?thesis by (simp add: enrich_def st et ids dds)
qed


lemma enrich_asha: "enrich example_to_datetime example_digit exact_sub [asha_raw] = Inr [asha]"
  by (simp add: enrich_def asha_raw_def asha_def example_to_datetime_def
      apply_extract_def extract_id_def findall_digits_def example_digit_def codes_def
      enriched_row_def fillna_Approval_Level_def delay_flag_of_def greater_zero_def
      exact_sub_def)

text \<open>
  Claim C4, amended. Whenever the cleaning block returns, its result has as many rows as
  its input and row \<open>i\<close> of the result is the enrichment of row \<open>i\<close> of the input:
  no row is dropped, added or moved. The block returns whenever \<^verbatim>\<open>pd.to_datetime\<close>
  accepts the two timestamp columns and every row is well typed, so a missing approval
  level, a missing duration or a missing timestamp costs no row. When
  \<^verbatim>\<open>pd.to_datetime\<close> rejects one of the timestamp columns the block raises that error
  and returns no rows.
\<close>

theorem enrich_same_length_and_order:
  "(enrich to_datetime d sub df = Inr out \<longrightarrow>
      length out = length df \<and>
      (\<exists>st et. to_datetime (map raw_Start_Time df) = Inr st \<and>
               to_datetime (map raw_End_Time df) = Inr et \<and>
               (\<forall>i<length df. enriches d sub st et i (df ! i) (out ! i)))) \<and>
   (to_datetime (map raw_Start_Time df) = Inr st' \<and>
    to_datetime (map raw_End_Time df) = Inr et' \<and> (\<forall>r\<in>set df. well_typed r) \<longrightarrow>
      (\<exists>out'. enrich to_datetime d sub df = Inr out')) \<and>
   (to_datetime (map raw_Start_Time df) = Inl e \<longrightarrow> enrich to_datetime d sub df = Inl e) \<and>
   (to_datetime (map raw_Start_Time df) = Inr st' \<and>
    to_datetime (map raw_End_Time df) = Inl e \<longrightarrow> enrich to_datetime d sub df = Inl e)"
proof (intro conjI impI)
  assume "enrich to_datetime d sub df = Inr out"
  from enrich_Inr [OF this]
  show "length out = length df"
    "\<exists>st et. to_datetime (map raw_Start_Time df) = Inr st \<and>
               to_datetime (map raw_End_Time df) = Inr et \<and>
               (\<forall>i<length df. enriches d sub st et i (df ! i) (out ! i))"
    by blast+
next
  assume "to_datetime (map raw_Start_Time df) = Inr st' \<and>
    to_datetime (map raw_End_Time df) = Inr et' \<and> (\<forall>r\<in>set df. well_typed r)"
  then show "\<exists>out'. enrich to_datetime d sub df = Inr out'"
    using enrich_returns by blast
next
  assume "to_datetime (map raw_Start_Time df) = Inl e"
  then show "enrich to_datetime d sub df = Inl e" by (simp add: enrich_def)
next
  assume "to_datetime (map raw_Start_Time df) = Inr st' \<and>
    to_datetime (map raw_End_Time df) = Inl e"
  then show "enrich to_datetime d sub df = Inl e" by (simp add: enrich_def)
qed

theorem enrich_same_length_and_order_witness:
  "enrich example_to_datetime example_digit exact_sub [asha_raw] = Inr [asha] \<and>
   length [asha] = length [asha_raw] \<and>
   Assigned_Employee asha = codes ''Asha_7'' \<and>
   raw_Assigned_Employee asha_raw = Some (Assigned_Employee asha)"
proof -
  note t = enrich_same_length_and_order
    [of example_to_datetime example_digit exact_sub "[asha_raw]" "[asha]"]
  from t enrich_asha obtain st et where
    "length [asha] = length [asha_raw]"
    "\<forall>i<length [asha_raw]. enriches example_digit exact_sub st et i ([asha_raw] ! i) ([asha] ! i)"
    by blast
  then have "length [asha] = length [asha_raw]"
    and "enriches example_digit exact_sub st et 0 asha_raw asha" by simp_all
  then have "raw_Assigned_Employee asha_raw = Some (Assigned_Employee asha)"
    by (simp add: enriches_def)
  moreover have "Assigned_Employee asha = codes ''Asha_7''" by (simp add: asha_def)
  ultimately show ?thesis using enrich_asha by simp
qed

text \<open>
  Claim C4 as stated fails: on a table holding a row with a malformed timestamp the
  block raises and returns no rows at all. So it does on a row without an employee, where
  \<^verbatim>\<open>re.findall\<close> is handed a value that is no string.
\<close>

theorem enrich_malformed_row_raises:
  "enrich example_to_datetime example_digit exact_sub [asha_raw, malformed_raw] = Inl ValueError \<and>
   enrich example_to_datetime example_digit exact_sub [asha_raw, unassigned_raw] = Inl TypeError"
  by (simp add: enrich_def malformed_raw_def unassigned_raw_def asha_raw_def
      example_to_datetime_def apply_extract_def)

subsection \<open>Delay classification\<close>







section \<open>Properties of the filter\<close>

lemma select_rows_map: "select_rows df (map P df) = filter P df"
  by (induction df) (simp_all add: select_rows_def)

lemma mask_and_map: "mask_and (map P df) (map Q df) = map (\<lambda>r. P r \<and> Q r) df"
  by (induction df) (simp_all add: mask_and_def)

lemma isin_map: "isin (map f df) vals = map (\<lambda>r. f r \<in> set vals) df"
  by (simp add: isin_def)

lemma filtered_df_filter:
  "filtered_df df ds ps fs =
     filter (\<lambda>r. Department r \<in> set ds \<and> Priority_Level r \<in> set ps \<and> Delay_Flag r \<in> set fs) df"
  by (simp add: filtered_df_def isin_map mask_and_map select_rows_map conj_assoc)

lemma set_unique [simp]: "set (unique xs) = set xs"
  by (induction xs rule: unique.induct) auto

text \<open>
  Claim C3. The filter returns exactly the rows, in table order, whose department,
  priority level and delay flag each belong to the selection made for that column. An
  empty selection in any of the three leaves no row, and the default selections, the
  distinct values of each column, return the table unchanged.
\<close>

theorem filtered_df_subsequence:
  "filtered_df df ds ps fs =
     filter (\<lambda>r. Department r \<in> set ds \<and> Priority_Level r \<in> set ps \<and> Delay_Flag r \<in> set fs) df \<and>
   (ds = [] \<or> ps = [] \<or> fs = [] \<longrightarrow> filtered_df df ds ps fs = []) \<and>
   filtered_df df (unique (map Department df)) (unique (map Priority_Level df))
     (unique (map Delay_Flag df)) = df"
proof (intro conjI impI)
  show "filtered_df df ds ps fs =
     filter (\<lambda>r. Department r \<in> set ds \<and> Priority_Level r \<in> set ps \<and> Delay_Flag r \<in> set fs) df"
    by (rule filtered_df_filter)
next
  assume "ds = [] \<or> ps = [] \<or> fs = []"
  then show "filtered_df df ds ps fs = []"
    by (auto simp: filtered_df_filter)
next
  show "filtered_df df (unique (map Department df)) (unique (map Priority_Level df))
     (unique (map Delay_Flag df)) = df"
    by (simp add: filtered_df_filter)
qed

theorem filtered_df_subsequence_witness:
  "filtered_df [asha, on_time_row] [Some ''Ops'', Some ''IT''] [] [''Delayed''] = [] \<and>
   filtered_df [asha, on_time_row] [Some ''IT''] [Some ''Low'', Some ''High'']
     [''On-Time'', ''Delayed''] = [on_time_row]"
proof -
  note t = filtered_df_subsequence [of "[asha, on_time_row]"]
  have "[Some ''Ops'', Some ''IT''] = [] \<or> ([]::string option list) = [] \<or> [''Delayed''] = []"
    by simp
  with t [of "[Some ''Ops'', Some ''IT'']" "[]" "[''Delayed'']"]
  have a: "filtered_df [asha, on_time_row] [Some ''Ops'', Some ''IT''] [] [''Delayed''] = []"
    by blast
  from t [of "[Some ''IT'']" "[Some ''Low'', Some ''High'']" "[''On-Time'', ''Delayed'']"]
  have "filtered_df [asha, on_time_row] [Some ''IT''] [Some ''Low'', Some ''High'']
          [''On-Time'', ''Delayed''] =
     filter (\<lambda>r. Department r \<in> set [Some ''IT''] \<and>
                 Priority_Level r \<in> set [Some ''Low'', Some ''High''] \<and>
                 Delay_Flag r \<in> set [''On-Time'', ''Delayed'']) [asha, on_time_row]"
    by blast
  also have "\<dots> = [on_time_row]" by (simp add: asha_def on_time_row_def)
  finally show ?thesis using a by simp
qed

section \<open>Properties of the indicators\<close>

lemma map_of_keyed:
  "map_of (map (\<lambda>v. (v, g v)) ks) k = (if k \<in> set ks then Some (g k) else None)"
  by (induction ks) auto

lemma series_get_value_counts:
  "xs \<noteq> [] \<Longrightarrow>
   series_get (value_counts_normalize xs) v 0 = of_nat (count_list xs v) / of_nat (length xs)"
  by (simp add: series_get_def value_counts_normalize_def map_of_keyed count_list_0_iff)

lemma count_list_filter: "count_list xs v = length (filter (\<lambda>x. x = v) xs)"
  by (induction xs) auto

lemma delay_percentage_share:
  "data \<noteq> [] \<Longrightarrow> delay_percentage rnd data = rnd (delayed_share data)"
  by (simp add: delay_percentage_def delayed_share_def series_get_value_counts
      count_list_filter filter_map o_def)

lemma delay_percentage_Nil: "delay_percentage rnd [] = rnd 0"
  by (simp add: delay_percentage_def series_get_def value_counts_normalize_def)

lemma delayed_share_range:
  "data \<noteq> [] \<Longrightarrow> 0 \<le> delayed_share data \<and> delayed_share data \<le> 100"
proof -
  assume "data \<noteq> []"
  then have n: "(0::rat) < of_nat (length data)" by simp
  have "length (filter (\<lambda>r. Delay_Flag r = ''Delayed'') data) \<le> length data" by simp
  then have "(of_nat (length (filter (\<lambda>r. Delay_Flag r = ''Delayed'') data)) :: rat)
               \<le> of_nat (length data)"
    by (simp only: of_nat_le_iff)
  then show ?thesis using n by (simp add: delayed_share_def field_simps)
qed

lemma two_decimals_range:
  assumes "0 \<le> x" and "x \<le> 100" and "two_decimals x y"
  shows "0 \<le> y \<and> y \<le> 100"
proof -
  define m where "m = \<lfloor>y * 100\<rfloor>"
  have m: "of_int m = y * 100" and near: "\<bar>y - x\<bar> \<le> 1 / 200"
    using assms(3) by (simp_all add: two_decimals_def m_def)
  have "- 1 < y * 100" using near assms(1) by linarith
  then have "(of_int (- 1) :: rat) < of_int m" by (simp add: m)
  then have "- 1 < m" by (simp only: of_int_less_iff)
  then have "0 \<le> m" by simp
  then have "(of_int 0 :: rat) \<le> of_int m" by (simp only: of_int_le_iff)
  then have lo: "0 \<le> y * 100" by (simp add: m)
  have "y * 100 < 10001" using near assms(2) by linarith
  then have "(of_int m :: rat) < of_int 10001" by (simp add: m)
  then have "m < 10001" by (simp only: of_int_less_iff)
  then have "m \<le> 10000" by simp
  then have "(of_int m :: rat) \<le> of_int 10000" by (simp only: of_int_le_iff)
  then have hi: "y * 100 \<le> 10000" by (simp add: m)
  from lo hi show ?thesis by simp
qed

lemma two_decimals_exact:
  assumes "two_decimals (of_int k / 100) y"
  shows "y = of_int k / 100"
proof -
  define m where "m = \<lfloor>y * 100\<rfloor>"
  have m: "of_int m = y * 100" and near: "\<bar>y - of_int k / 100\<bar> \<le> 1 / 200"
    using assms by (simp_all add: two_decimals_def m_def)
  have "y * 100 - of_int k < 1" using near by linarith
  then have "(of_int (m - k) :: rat) < of_int 1" by (simp add: m)
  then have 1: "m - k < 1" by (simp only: of_int_less_iff)
  have "- 1 < y * 100 - of_int k" using near by linarith
  then have "(of_int (- 1) :: rat) < of_int (m - k)" by (simp add: m)
  then have 2: "- 1 < m - k" by (simp only: of_int_less_iff)
  from 1 2 have "m = k" by simp
  then have "y * 100 = of_int k" using m by simp
  then show ?thesis by simp
qed

lemma round_half_even_cases:
  "(round_half_even y = \<lfloor>y\<rfloor> \<and> y - of_int \<lfloor>y\<rfloor> \<le> 1 / 2) \<or>
   (round_half_even y = \<lfloor>y\<rfloor> + 1 \<and> 1 / 2 \<le> y - of_int \<lfloor>y\<rfloor>)"
  by (auto simp: round_half_even_def Let_def)

lemma round_half_even_near:
  "\<bar>of_int (round_half_even y) - y\<bar> \<le> 1 / 2"
proof -
  have f: "of_int \<lfloor>y\<rfloor> \<le> y" "y < of_int \<lfloor>y\<rfloor> + 1" by linarith+
  from round_half_even_cases [of y] show ?thesis
  proof
    assume "round_half_even y = \<lfloor>y\<rfloor> \<and> y - of_int \<lfloor>y\<rfloor> \<le> 1 / 2"
    then show ?thesis using f by simp
  next
    assume "round_half_even y = \<lfloor>y\<rfloor> + 1 \<and> 1 / 2 \<le> y - of_int \<lfloor>y\<rfloor>"
    then show ?thesis using f by simp
  qed
qed

lemma nearest_hundredth_rounds: "rounds_at nearest_hundredth x"
proof -
  have "\<bar>of_int (round_half_even (x * 100)) - x * 100\<bar> \<le> 1 / 2"
    by (rule round_half_even_near)
  then have "\<bar>nearest_hundredth x - x\<bar> \<le> 1 / 200"
    by (simp add: nearest_hundredth_def abs_le_iff field_simps)
  then show ?thesis by (simp add: rounds_at_def two_decimals_def nearest_hundredth_def)
qed

lemma floor_10000_3: "\<lfloor>10000 / 3 :: rat\<rfloor> = 3333"
  by (rule floor_unique) simp_all

text \<open>
  Claim C5, amended. The Delay % indicator lies between 0 and 100, is 0 on no rows and
  100 when there are rows and all of them are delayed. In general it is the share of
  delayed rows as a percentage rounded to two decimal places: a number of two decimal
  places at most 0.005 from the exact percentage. Which of the two neighbours it is where
  the percentage lies halfway between them is left to the float64 computation.
\<close>

theorem delay_percentage_rounded_share:
  assumes "rounds_at rnd 0" and "rounds_at rnd (delayed_share data)"
  shows "0 \<le> delay_percentage rnd data \<and> delay_percentage rnd data \<le> 100 \<and>
         delay_percentage rnd [] = 0 \<and>
         (data \<noteq> [] \<and> (\<forall>r\<in>set data. Delay_Flag r = ''Delayed'') \<longrightarrow>
            delay_percentage rnd data = 100) \<and>
         (data \<noteq> [] \<longrightarrow> two_decimals (delayed_share data) (delay_percentage rnd data))"
proof -
  have r: "two_decimals (delayed_share data) (rnd (delayed_share data))"
    using assms(2) by (simp add: rounds_at_def)
  have "two_decimals (of_int 0 / 100) (rnd 0)" using assms(1) by (simp add: rounds_at_def)
  then have zero: "rnd 0 = 0" using two_decimals_exact [of 0 "rnd 0"] by simp
  have range: "0 \<le> delay_percentage rnd data \<and> delay_percentage rnd data \<le> 100"
  proof (cases "data = []")
    case True
    then show ?thesis by (simp add: delay_percentage_Nil zero)
  next
    case False
    then show ?thesis
      using two_decimals_range [OF _ _ r] delayed_share_range [of data]
      by (simp add: delay_percentage_share)
  qed
  have all: "delay_percentage rnd data = 100"
    if a: "data \<noteq> [] \<and> (\<forall>r\<in>set data. Delay_Flag r = ''Delayed'')"
  proof -
    from a have "filter (\<lambda>r. Delay_Flag r = ''Delayed'') data = data" by simp
    then have s: "delayed_share data = 100" using a by (simp add: delayed_share_def)
    then have "two_decimals (of_int 10000 / 100) (rnd 100)" using r by simp
    then have "rnd 100 = 100" using two_decimals_exact [of 10000 "rnd 100"] by simp
    then show ?thesis using a s by (simp add: delay_percentage_share)
  qed
  have share: "two_decimals (delayed_share data) (delay_percentage rnd data)" if "data \<noteq> []"
    using that r by (simp add: delay_percentage_share)
  from range all share show ?thesis by (simp add: delay_percentage_Nil zero)
qed

theorem delay_percentage_rounded_share_witness:
  "rounds_at nearest_hundredth 0 \<and>
   rounds_at nearest_hundredth (delayed_share [asha, asha]) \<and>
   delay_percentage nearest_hundredth [asha, asha] = 100 \<and>
   delay_percentage nearest_hundredth [] = 0 \<and>
   two_decimals (delayed_share [asha, on_time_row])
     (delay_percentage nearest_hundredth [asha, on_time_row])"
proof -
  note t = delay_percentage_rounded_share
    [OF nearest_hundredth_rounds [of 0] nearest_hundredth_rounds]
  have "[asha, asha] \<noteq> [] \<and> (\<forall>r\<in>set [asha, asha]. Delay_Flag r = ''Delayed'')"
    by (simp add: asha_def)
  with t [of "[asha, asha]"]
  have a: "delay_percentage nearest_hundredth [asha, asha] = 100" by blast
  from t [of "[]"] have z: "delay_percentage nearest_hundredth [] = 0" by blast
  have "[asha, on_time_row] \<noteq> []" by simp
  with t [of "[asha, on_time_row]"]
  have "two_decimals (delayed_share [asha, on_time_row])
     (delay_percentage nearest_hundredth [asha, on_time_row])" by blast
  with a z nearest_hundredth_rounds show ?thesis by blast
qed

text \<open>
  Claim C5 as stated fails where the percentage has more than two decimal places: with
  one delayed row in three the indicator is 33.33, the share 100/3. No rounding to two
  places returns the share itself there.
\<close>

theorem delay_percentage_one_in_three:
  "delay_percentage nearest_hundredth [asha, on_time_row, on_time_row] = 3333 / 100 \<and>
   delayed_share [asha, on_time_row, on_time_row] = 100 / 3 \<and>
   two_decimals (100 / 3) (3333 / 100) \<and> \<not> two_decimals (100 / 3) (100 / 3)"
  by (simp add: delay_percentage_def series_get_def value_counts_normalize_def
      delayed_share_def asha_def on_time_row_def nearest_hundredth_def round_half_even_def
      Let_def floor_10000_3 two_decimals_def)

section \<open>Properties of the delay trend\<close>

lemma dated_flags_Cons:
  "dated_flags (r # data) =
     (case Start_Time r of None \<Rightarrow> dated_flags data
      | Some ts \<Rightarrow> (fst ts, Delay_Flag r) # dated_flags data)"
  by (simp add: dated_flags_def map_filter_simps split: option.splits)

lemma dated_flags_Nil [simp]: "dated_flags [] = []"
  by (simp add: dated_flags_def map_filter_simps)

lemma count_dated_flags:
  "count_list (dated_flags data) (d, f) =
     length (filter (\<lambda>r. on_date d r \<and> Delay_Flag r = f) data)"
  by (induction data) (auto simp: dated_flags_Cons on_date_def split: option.splits)

lemma set_dated_flags:
  "set (dated_flags data) = {(d, Delay_Flag r) | d r. r \<in> set data \<and> on_date d r}"
  by (induction data) (auto simp: dated_flags_Cons on_date_def split: option.splits)

lemma dates_of_dated_flags:
  "fst ` set (dated_flags data) = {d. \<exists>r\<in>set data. on_date d r}"
  by (auto simp: set_dated_flags image_iff)

lemma flags_of_dated_flags:
  "snd ` set (dated_flags data) = Delay_Flag ` set (dated_rows data)"
  by (force simp: set_dated_flags dated_rows_def on_date_def image_iff)

lemma trend_df_table:
  "trend_df data =
     map (\<lambda>d. (d, map (\<lambda>f. (f, count_list (dated_flags data) (d, f)))
                       (sort (remdups (map snd (dated_flags data))))))
         (sort (remdups (map fst (dated_flags data))))"
proof -
  let ?kf = "dated_flags data"
  have 1: "map (\<lambda>e. fst (fst e)) (grouped_value_counts ?kf) = map fst (remdups ?kf)"
    and 2: "map (\<lambda>e. snd (fst e)) (grouped_value_counts ?kf) = map snd (remdups ?kf)"
    by (simp_all add: grouped_value_counts_def o_def)
  have 3: "(case map_of (grouped_value_counts ?kf) p of None \<Rightarrow> 0 | Some n \<Rightarrow> n) = count_list ?kf p"
    for p
    by (simp add: grouped_value_counts_def map_of_keyed count_list_0_iff)
  show ?thesis
    by (simp add: trend_df_def fillna0_def unstack_def Let_def 1 2 3 o_def remdups_map_remdups)
qed

lemma trend_df_example:
  "trend_df [on_time_row, late_next_day] =
     [(19723, [(''Delayed'', 0), (''On-Time'', 1)]), (19724, [(''Delayed'', 1), (''On-Time'', 0)])]"
  by (simp add: trend_df_table dated_flags_Cons on_time_row_def late_next_day_def asha_def)

text \<open>
  Claim C9, amended. The trend table has one row for each distinct calendar date on which
  a record starts, the time of day being discarded. Every row is keyed by the same
  flags, namely the delay flags that occur among the records with a start time, and holds
  for each of them the number of records of that date with that flag, 0 when there is
  none. A flag that occurs in no record is no key of the table.
\<close>

theorem trend_df_counts:
  "sorted (map fst (trend_df data)) \<and> distinct (map fst (trend_df data)) \<and>
   set (map fst (trend_df data)) = {d. \<exists>r\<in>set data. on_date d r} \<and>
   (\<forall>d row. (d, row) \<in> set (trend_df data) \<longrightarrow>
      sorted (map fst row) \<and> distinct (map fst row) \<and>
      set (map fst row) = Delay_Flag ` set (dated_rows data) \<and>
      (\<forall>f. map_of row f =
         (if f \<in> Delay_Flag ` set (dated_rows data)
          then Some (length (filter (\<lambda>r. on_date d r \<and> Delay_Flag r = f) data))
          else None)))"
proof (intro conjI allI impI)
  show "sorted (map fst (trend_df data))" "distinct (map fst (trend_df data))"
    by (simp_all add: trend_df_table o_def)
  show "set (map fst (trend_df data)) = {d. \<exists>r\<in>set data. on_date d r}"
    using dates_of_dated_flags [of data] by (simp add: trend_df_table o_def)
next
  fix d row assume "(d, row) \<in> set (trend_df data)"
  then have row: "row = map (\<lambda>f. (f, count_list (dated_flags data) (d, f)))
                       (sort (remdups (map snd (dated_flags data))))"
    by (auto simp: trend_df_table)
  show "sorted (map fst row)" "distinct (map fst row)"
    by (simp_all add: row o_def)
  show "set (map fst row) = Delay_Flag ` set (dated_rows data)"
    using flags_of_dated_flags [of data] by (simp add: row o_def)
  fix f
  show "map_of row f =
         (if f \<in> Delay_Flag ` set (dated_rows data)
          then Some (length (filter (\<lambda>r. on_date d r \<and> Delay_Flag r = f) data))
          else None)"
    using flags_of_dated_flags [of data]
    by (simp add: row map_of_keyed count_dated_flags)
qed

theorem trend_df_counts_witness:
  "(19723, [(''Delayed'', 0), (''On-Time'', 1)]) \<in> set (trend_df [on_time_row, late_next_day]) \<and>
   map_of [(''Delayed'', 0 :: nat), (''On-Time'', 1)] ''Delayed'' =
     Some (length (filter (\<lambda>r. on_date 19723 r \<and> Delay_Flag r = ''Delayed'')
                     [on_time_row, late_next_day]))"
proof -
  have m: "(19723, [(''Delayed'', 0), (''On-Time'', 1)]) \<in> set (trend_df [on_time_row, late_next_day])"
    by (simp add: trend_df_example)
  have f: "''Delayed'' \<in> Delay_Flag ` set (dated_rows [on_time_row, late_next_day])"
    by (simp add: dated_rows_def on_time_row_def late_next_day_def asha_def)
  from trend_df_counts [of "[on_time_row, late_next_day]"] m
  have "\<forall>f. map_of [(''Delayed'', 0 :: nat), (''On-Time'', 1)] f =
         (if f \<in> Delay_Flag ` set (dated_rows [on_time_row, late_next_day])
          then Some (length (filter (\<lambda>r. on_date 19723 r \<and> Delay_Flag r = f)
                        [on_time_row, late_next_day]))
          else None)"
    by blast
  with f have "map_of [(''Delayed'', 0 :: nat), (''On-Time'', 1)] ''Delayed'' =
     Some (length (filter (\<lambda>r. on_date 19723 r \<and> Delay_Flag r = ''Delayed'')
                     [on_time_row, late_next_day]))"
    by presburger
  with m show ?thesis by blast
qed

text \<open>
  Claim C9 as stated fails when one of the two flags occurs nowhere in the filtered
  records, as after selecting the delay status On-Time alone: the table then has no
  entry for \<open>Delayed\<close>, rather than an entry 0.
\<close>

theorem trend_df_flag_absent:
  "filtered_df [asha, on_time_row] [Some ''Ops'', Some ''IT''] [Some ''High'', Some ''Low'']
     [''On-Time''] = [on_time_row] \<and>
   trend_df [on_time_row] = [(19723, [(''On-Time'', 1)])] \<and>
   map (\<lambda>(d, row). (d, map_of row ''Delayed'')) (trend_df [on_time_row]) = [(19723, None)]"
  by (simp add: filtered_df_filter trend_df_table dated_flags_Cons on_time_row_def asha_def)

section \<open>Properties of the recommendation engine\<close>

lemma argmax_from_first:
  "\<exists>pre post. best # ps = pre @ argmax_from best ps # post \<and>
     (\<forall>p\<in>set pre. snd p < snd (argmax_from best ps)) \<and>
     (\<forall>p\<in>set post. snd p \<le> snd (argmax_from best ps))"
proof (induction ps arbitrary: best)
  case Nil
  have "[best] = [] @ best # [] \<and> (\<forall>p\<in>set []. snd p < snd best) \<and>
        (\<forall>p\<in>set []. snd p \<le> snd best)" by simp
  then have "\<exists>pre post. [best] = pre @ best # post \<and> (\<forall>p\<in>set pre. snd p < snd best) \<and>
        (\<forall>p\<in>set post. snd p \<le> snd best)" by (rule_tac x = "[]" in exI, rule_tac x = "[]" in exI)
  then show ?case by simp
next
  case (Cons p ps)
  show ?case
  proof (cases "snd best < snd p")
    case True
    define r where "r = argmax_from p ps"
    have eq: "argmax_from best (p # ps) = r" using True by (simp add: r_def)
    from Cons [of p] obtain pre post where
      d: "p # ps = pre @ r # post" "\<forall>q\<in>set pre. snd q < snd r" "\<forall>q\<in>set post. snd q \<le> snd r"
      unfolding r_def by blast
    have "snd p \<le> snd r"
    proof (cases pre)
      case Nil
      then show ?thesis using d(1) by simp
    next
      case (Cons a pre')
      then have "p \<in> set pre" using d(1) by simp
      then show ?thesis using d(2) by force
    qed
    then have "snd best < snd r" using True by simp
    then have "best # p # ps = (best # pre) @ r # post \<and>
      (\<forall>q\<in>set (best # pre). snd q < snd r) \<and> (\<forall>q\<in>set post. snd q \<le> snd r)"
      using d by simp
    then have "\<exists>pre post. best # p # ps = pre @ r # post \<and>
      (\<forall>q\<in>set pre. snd q < snd r) \<and> (\<forall>q\<in>set post. snd q \<le> snd r)"
      by (rule_tac x = "best # pre" in exI, rule_tac x = post in exI)
    then show ?thesis by (simp only: eq)
  next
    case False
    define r where "r = argmax_from best ps"
    have eq: "argmax_from best (p # ps) = r" using False by (simp add: r_def)
    from Cons [of best] obtain pre post where
      d: "best # ps = pre @ r # post" "\<forall>q\<in>set pre. snd q < snd r" "\<forall>q\<in>set post. snd q \<le> snd r"
      unfolding r_def by blast
    have "\<exists>pre post. best # p # ps = pre @ r # post \<and>
      (\<forall>q\<in>set pre. snd q < snd r) \<and> (\<forall>q\<in>set post. snd q \<le> snd r)"
    proof (cases pre)
      case Nil
      then have "r = best" and "post = ps" using d(1) by simp_all
      then have "best # p # ps = [] @ r # (p # ps) \<and>
         (\<forall>q\<in>set []. snd q < snd r) \<and> (\<forall>q\<in>set (p # ps). snd q \<le> snd r)"
        using d(3) False by simp
      then show ?thesis by (rule_tac x = "[]" in exI, rule_tac x = "p # ps" in exI)
    next
      case (Cons b pre')
      then have b: "b = best" and ps: "ps = pre' @ r # post" using d(1) by simp_all
      have "snd best < snd r" using d(2) Cons b by simp
      then have "snd p < snd r" using False by simp
      then have "best # p # ps = (best # p # pre') @ r # post \<and>
         (\<forall>q\<in>set (best # p # pre'). snd q < snd r) \<and> (\<forall>q\<in>set post. snd q \<le> snd r)"
        using ps d(2,3) Cons b by simp
      then show ?thesis by (rule_tac x = "best # p # pre'" in exI, rule_tac x = post in exI)
    qed
    then show ?thesis by (simp only: eq)
  qed
qed

lemma first_max_keyed:
  assumes "sorted ks" and "distinct ks" and tbl: "map (\<lambda>k. (k, h k)) ks = p # ps"
  shows "fst (argmax_from p ps) \<in> set ks \<and>
         (\<forall>k'\<in>set ks. h k' \<le> h (fst (argmax_from p ps)) \<and>
            (h k' = h (fst (argmax_from p ps)) \<longrightarrow> fst (argmax_from p ps) \<le> k'))"
proof -
  let ?tbl = "map (\<lambda>k. (k, h k)) ks"
  define r where "r = argmax_from p ps"
  from argmax_from_first [of p ps] obtain pre post where
    d: "p # ps = pre @ r # post" "\<forall>q\<in>set pre. snd q < snd r" "\<forall>q\<in>set post. snd q \<le> snd r"
    unfolding r_def by blast
  have split: "?tbl = pre @ r # post" using tbl d(1) by simp
  then have "r \<in> set ?tbl" by simp
  then obtain k where k: "k \<in> set ks" "r = (k, h k)" by auto
  have "map fst ?tbl = ks" by (simp add: o_def)
  moreover have "map fst ?tbl = map fst pre @ k # map fst post"
    by (simp only: split map_append list.map k(2) fst_conv)
  ultimately have ks: "ks = map fst pre @ k # map fst post" by simp
  have "sorted (map fst pre @ k # map fst post)" using assms(1) ks by simp
  then have after: "\<forall>y\<in>set post. k \<le> fst y"
    by (simp add: sorted_append)
  have "\<forall>k'\<in>set ks. h k' \<le> h k \<and> (h k' = h k \<longrightarrow> k \<le> k')"
  proof
    fix k' assume "k' \<in> set ks"
    then have "(k', h k') \<in> set ?tbl" by simp
    then have "(k', h k') \<in> set (pre @ r # post)" by (simp only: split)
    then consider "(k', h k') \<in> set pre" | "(k', h k') = r" | "(k', h k') \<in> set post"
      by auto
    then show "h k' \<le> h k \<and> (h k' = h k \<longrightarrow> k \<le> k')"
    proof cases
      case 1
      then have "snd (k', h k') < snd r" using d(2) by blast
      then show ?thesis by (simp add: k(2))
    next
      case 2
      then show ?thesis by (simp add: k(2))
    next
      case 3
      then have "snd (k', h k') \<le> snd r" "k \<le> fst (k', h k')" using d(3) after by blast+
      then show ?thesis by (simp add: k(2))
    qed
  qed
  moreover have "fst (argmax_from p ps) = k" using k(2) by (simp add: r_def [symmetric])
  ultimately show ?thesis using k(1) by simp
qed

lemma present_entries_keyed:
  "present_entries (map (\<lambda>k. (k, g k)) ks) =
     map (\<lambda>k. (k, the (g k))) (filter (\<lambda>k. g k \<noteq> None) ks)"
  by (induction ks) (auto simp: present_entries_def map_filter_simps)

lemma present_entries_all_present: "present_entries (all_present s) = s"
  by (induction s) (auto simp: present_entries_def all_present_def map_filter_simps)

lemma idxmax_keyed:
  assumes "sorted ks" and "distinct ks" and "\<exists>k\<in>set ks. g k \<noteq> None"
  shows "\<exists>k m. idxmax (map (\<lambda>k. (k, g k)) ks) = Inr k \<and> k \<in> set ks \<and> g k = Some m \<and>
           (\<forall>k'\<in>set ks. \<forall>m'. g k' = Some m' \<longrightarrow> m' \<le> m \<and> (m' = m \<longrightarrow> k \<le> k'))"
proof -
  let ?ks = "filter (\<lambda>k. g k \<noteq> None) ks"
  have ne: "?ks \<noteq> []" using assms(3) by (simp add: filter_empty_conv)
  have so: "sorted ?ks" using assms(1) by (rule sorted_wrt_filter)
  have di: "distinct ?ks" using assms(2) by simp
  obtain p ps where tbl: "map (\<lambda>k. (k, the (g k))) ?ks = p # ps"
    using ne by (cases ?ks) auto
  define k where "k = fst (argmax_from p ps)"
  from first_max_keyed [OF so di tbl]
  have f: "map (\<lambda>k. (k, the (g k))) ?ks = p # ps" "fst (argmax_from p ps) = k" "k \<in> set ?ks"
    "\<forall>k'\<in>set ?ks. the (g k') \<le> the (g k) \<and> (the (g k') = the (g k) \<longrightarrow> k \<le> k')"
    using tbl by (simp_all add: k_def)
  have i: "idxmax (map (\<lambda>k. (k, g k)) ks) = Inr k"
    by (simp only: idxmax_def present_entries_keyed f(1) list.case f(2))
  from f(3) obtain m where m: "g k = Some m" and kin: "k \<in> set ks" by auto
  have "\<forall>k'\<in>set ks. \<forall>m'. g k' = Some m' \<longrightarrow> m' \<le> m \<and> (m' = m \<longrightarrow> k \<le> k')"
  proof (intro ballI allI impI)
    fix k' m' assume "k' \<in> set ks" and g': "g k' = Some m'"
    then have "k' \<in> set ?ks" by simp
    with f(4) have "the (g k') \<le> the (g k) \<and> (the (g k') = the (g k) \<longrightarrow> k \<le> k')" by blast
    then show "m' \<le> m \<and> (m' = m \<longrightarrow> k \<le> k')" by (simp add: g' m)
  qed
  with i kin m show ?thesis by blast
qed

lemma idxmax_all_present_keyed:
  assumes "ks \<noteq> []" and "sorted ks" and "distinct ks"
  shows "\<exists>k. idxmax (all_present (map (\<lambda>k. (k, h k)) ks)) = Inr k \<and> k \<in> set ks \<and>
           (\<forall>k'\<in>set ks. h k' \<le> h k \<and> (h k' = h k \<longrightarrow> k \<le> k'))"
proof -
  obtain p ps where tbl: "map (\<lambda>k. (k, h k)) ks = p # ps"
    using assms(1) by (cases ks) auto
  define k where "k = fst (argmax_from p ps)"
  from first_max_keyed [OF assms(2,3) tbl]
  have f: "map (\<lambda>k. (k, h k)) ks = p # ps" "fst (argmax_from p ps) = k" "k \<in> set ks"
    "\<forall>k'\<in>set ks. h k' \<le> h k \<and> (h k' = h k \<longrightarrow> k \<le> k')"
    using tbl by (simp_all add: k_def)
  have "idxmax (all_present (map (\<lambda>k. (k, h k)) ks)) = Inr k"
    by (simp only: idxmax_def present_entries_all_present f(1) list.case f(2))
  with f(3,4) show ?thesis by blast
qed

lemma set_map_filter_key:
  "set (List.map_filter key data) = {k. Some k \<in> key ` set data}"
  by (induction data) (auto simp: map_filter_simps image_iff split: option.splits)

lemma groupby_keys_props:
  "sorted (groupby_keys key data)" "distinct (groupby_keys key data)"
  "set (groupby_keys key data) = {k. Some k \<in> key ` set data}"
  by (simp_all add: groupby_keys_def set_map_filter_key)

lemma idxmax_cost:
  assumes "\<exists>r\<in>set data. Department r \<noteq> None \<and> Cost_Per_Task r \<noteq> None"
  shows "\<exists>dep m. idxmax (cost_mean_by_department gmean data) = Inr dep \<and>
     Some dep \<in> Department ` set data \<and> department_mean_cost gmean data dep = Some m \<and>
     (\<forall>dep' m'. Some dep' \<in> Department ` set data \<and>
                department_mean_cost gmean data dep' = Some m' \<longrightarrow>
                m' \<le> m \<and> (m' = m \<longrightarrow> dep \<le> dep'))"
proof -
  from assms obtain r dep0 c where r: "r \<in> set data" "Department r = Some dep0"
    "Cost_Per_Task r = Some c" by auto
  then have "r \<in> set (group_rows Department data dep0)" by (simp add: group_rows_def)
  then have "Some c \<in> set (map Cost_Per_Task (group_rows Department data dep0))"
    using r(3) by force
  then have "c \<in> set (dropna (map Cost_Per_Task (group_rows Department data dep0)))"
    by (simp add: dropna_def set_map_filter_key)
  then have "dropna (map Cost_Per_Task (group_rows Department data dep0)) \<noteq> []" by auto
  then have "department_mean_cost gmean data dep0 \<noteq> None"
    by (simp add: department_mean_cost_def group_mean_def split: list.splits)
  moreover have "dep0 \<in> set (groupby_keys Department data)"
    using r(1,2) by (force simp: groupby_keys_props(3))
  ultimately have "\<exists>k\<in>set (groupby_keys Department data). department_mean_cost gmean data k \<noteq> None"
    by blast
  from idxmax_keyed [OF groupby_keys_props(1,2) this]
  show ?thesis
    by (simp add: cost_mean_by_department_def department_mean_cost_def groupby_keys_props(3))
      blast
qed

lemma idxmax_workload:
  assumes "data \<noteq> []"
  shows "\<exists>e. idxmax (all_present (workload_df gsum data)) = Inr e \<and>
     e \<in> Assigned_Employee ` set data \<and>
     (\<forall>e'\<in>Assigned_Employee ` set data.
        employee_total gsum data e' \<le> employee_total gsum data e \<and>
        (employee_total gsum data e' = employee_total gsum data e \<longrightarrow> e \<le> e'))"
proof -
  have keys: "set (groupby_keys employee_key data) = Assigned_Employee ` set data"
    by (auto simp: groupby_keys_props(3) employee_key_def image_iff)
  then have "groupby_keys employee_key data \<noteq> []" using assms by auto
  from idxmax_all_present_keyed [OF this groupby_keys_props(1,2), of "employee_total gsum data"]
  show ?thesis
    by (simp add: workload_df_def employee_total_def keys)
qed

lemma generate_insights_shape:
  assumes "idxmax (cost_mean_by_department gmean data) = Inr dep"
    and "idxmax (all_present (workload_df gsum data)) = Inr e"
  shows "generate_insights gmean gsum data =
     Inr ((if greater_than (bool_mean (map (\<lambda>r. Delay_Flag r = ''Delayed'') data)) (3 / 10)
           then [HighDelayRate] else []) @
          [HighestCostDepartment dep, OverloadedEmployee e] @
          (if \<exists>r\<in>set data. Priority_Level r = Some ''High'' \<and> Delay_Flag r = ''Delayed''
           then [HighPriorityDelay] else []))"
  using assms by (auto simp: generate_insights_def Let_def filter_empty_conv)

lemmas insight_example_defs =
  generate_insights_def cost_mean_by_department_def workload_df_def groupby_keys_def
  group_rows_def group_mean_def group_sum_def dropna_def map_filter_simps idxmax_def
  present_entries_def all_present_def employee_key_def exact_mean_def exact_sum_def
  bool_mean_def greater_than_def asha_def on_time_row_def codes_def Let_def

lemma generate_insights_ops_it:
  "generate_insights exact_mean exact_sum [ops_10, it_50] =
     Inr [HighDelayRate, HighestCostDepartment ''IT'', OverloadedEmployee (codes ''Asha_7''),
          HighPriorityDelay]"
  by (simp add: insight_example_defs ops_10_def it_50_def)


lemma filtered_df_none_selected: "filtered_df df [] ps fs = []"
  by (simp add: filtered_df_filter)




text \<open>
  Claim C10, amended. On records among which one has both a department and a cost,
  \<^verbatim>\<open>generate_insights\<close> returns between two and four messages, in the order of the
  rules: the warning on a high delay rate at most once, the department of highest cost
  exactly once, the most loaded employee exactly once, the warning on delayed tasks of
  high priority at most once.
\<close>

theorem generate_insights_two_to_four:
  assumes "\<exists>r\<in>set data. Department r \<noteq> None \<and> Cost_Per_Task r \<noteq> None"
  shows "\<exists>ins dep e. generate_insights gmean gsum data = Inr ins \<and>
           ins = (if greater_than (bool_mean (map (\<lambda>r. Delay_Flag r = ''Delayed'') data)) (3 / 10)
                  then [HighDelayRate] else []) @
                 [HighestCostDepartment dep, OverloadedEmployee e] @
                 (if \<exists>r\<in>set data. Priority_Level r = Some ''High'' \<and> Delay_Flag r = ''Delayed''
                  then [HighPriorityDelay] else []) \<and>
           2 \<le> length ins \<and> length ins \<le> 4 \<and>
           filter names_department ins = [HighestCostDepartment dep] \<and>
           filter names_employee ins = [OverloadedEmployee e] \<and>
           count_list ins HighDelayRate \<le> 1 \<and> count_list ins HighPriorityDelay \<le> 1"
proof -
  from idxmax_cost [OF assms, of gmean] obtain dep where
    d: "idxmax (cost_mean_by_department gmean data) = Inr dep" by blast
  have "data \<noteq> []" using assms by auto
  from idxmax_workload [OF this, of gsum] obtain e where
    e: "idxmax (all_present (workload_df gsum data)) = Inr e" by blast
  let ?ins = "(if greater_than (bool_mean (map (\<lambda>r. Delay_Flag r = ''Delayed'') data)) (3 / 10)
           then [HighDelayRate] else []) @
          [HighestCostDepartment dep, OverloadedEmployee e] @
          (if \<exists>r\<in>set data. Priority_Level r = Some ''High'' \<and> Delay_Flag r = ''Delayed''
           then [HighPriorityDelay] else [])"
  have g: "generate_insights gmean gsum data = Inr ?ins" using d e by (rule generate_insights_shape)
  have "2 \<le> length ?ins \<and> length ?ins \<le> 4 \<and>
        filter names_department ?ins = [HighestCostDepartment dep] \<and>
        filter names_employee ?ins = [OverloadedEmployee e] \<and>
        count_list ?ins HighDelayRate \<le> 1 \<and> count_list ?ins HighPriorityDelay \<le> 1"
    by (simp add: names_department_def names_employee_def)
  with g show ?thesis by blast
qed

theorem generate_insights_two_to_four_witness:
  "generate_insights exact_mean exact_sum [ops_10, it_50] =
     Inr [HighDelayRate, HighestCostDepartment ''IT'', OverloadedEmployee (codes ''Asha_7''),
          HighPriorityDelay] \<and>
   length [HighDelayRate, HighestCostDepartment ''IT'', OverloadedEmployee (codes ''Asha_7''),
          HighPriorityDelay] \<le> 4 \<and>
   2 \<le> length [HighDelayRate, HighestCostDepartment ''IT'', OverloadedEmployee (codes ''Asha_7''),
          HighPriorityDelay]"
proof -
  have "\<exists>r\<in>set [ops_10, it_50]. Department r \<noteq> None \<and> Cost_Per_Task r \<noteq> None"
    by (simp add: ops_10_def asha_def)
  from generate_insights_two_to_four [OF this, of exact_mean exact_sum] obtain ins where
    i: "generate_insights exact_mean exact_sum [ops_10, it_50] = Inr ins"
    "2 \<le> length ins" "length ins \<le> 4"
    by blast
  from i(1) have "ins = [HighDelayRate, HighestCostDepartment ''IT'',
      OverloadedEmployee (codes ''Asha_7''), HighPriorityDelay]"
    by (simp add: generate_insights_ops_it)
  with i show ?thesis by blast
qed

text \<open>
  Claim C10 as stated fails on records that are not empty but have no department: the
  engine raises \<^verbatim>\<open>ValueError\<close> at line 150 and returns no message.
\<close>

theorem generate_insights_no_department_raises:
  "[no_department, no_department_on_time] \<noteq> [] \<and>
   generate_insights exact_mean exact_sum [no_department, no_department_on_time] =
     Inl ValueError"
  by (simp add: insight_example_defs no_department_def no_department_on_time_def)

text \<open>
  Claim C1 asks that on no records rules 2 and 3 stay silent and the engine returns. The
  source does not: \<^verbatim>\<open>idxmax\<close> of the empty series of department means raises
  \<^verbatim>\<open>ValueError\<close> at line 150. No records are what the filter leaves when the user
  clears the selection of departments.
\<close>

theorem generate_insights_empty_raises:
  "generate_insights gmean gsum [] = Inl ValueError \<and>
   generate_insights gmean gsum (filtered_df df [] priority_filter delay_filter) =
     Inl ValueError"
  by (simp add: filtered_df_none_selected generate_insights_def cost_mean_by_department_def
      groupby_keys_def map_filter_simps idxmax_def present_entries_def
      bool_mean_def greater_than_def)

section \<open>Properties of the workload ranking\<close>


















end
